theory Spec2Isabelle
  imports Complex_Main
begin

section \<open>Cropping parameters of an image stack (starfish/imagestack/parser/crop.py)\<close>

subsection \<open>Data\<close>

text \<open>
  A tile key names one tile by its round, channel and z-plane. The class is declared in
  another module; \<open>filter_tilekeys\<close> reads exactly these three attributes
  (\<open>tilekey.round\<close>, \<open>tilekey.ch\<close>, \<open>tilekey.z\<close>).
\<close>

record TileKey =
  tk_round :: int
  tk_ch :: int
  tk_z :: int

text \<open>
  A crop along one axis is an integer index or a Python slice. A slice carries
  \<open>start\<close>, \<open>stop\<close> and \<open>step\<close>, each possibly \<open>None\<close>;
  \<open>_crop_axis\<close> never reads \<open>step\<close>.
\<close>

datatype crop =
  CropInt int
| CropSlice "int option" "int option" "int option"

text \<open>
  The object state after \<open>__init__\<close>: the three permitted sets (or \<open>None\<close>) and
  the two axis crops (or \<open>None\<close>).
\<close>

record CropParameters =
  permitted_rounds :: "int set option"
  permitted_chs :: "int set option"
  permitted_zplanes :: "int set option"
  x_slice :: "crop option"
  y_slice :: "crop option"

datatype py_error = IndexError

subsection \<open>Construction\<close>

text \<open>
  \<open>set(c) if c else None\<close>: the condition is the truth value of an optional
  collection, false for \<open>None\<close> and for a collection without elements.
\<close>

fun permitted_of :: "int list option \<Rightarrow> int set option" where
  "permitted_of None = None"
| "permitted_of (Some xs) = (if xs \<noteq> [] then Some (set xs) else None)"

definition CropParameters_init ::
  "int list option \<Rightarrow> int list option \<Rightarrow> int list option \<Rightarrow> crop option \<Rightarrow> crop option
     \<Rightarrow> CropParameters" where
  "CropParameters_init rounds chs zplanes xs ys =
     \<lparr> permitted_rounds = permitted_of rounds,
       permitted_chs = permitted_of chs,
       permitted_zplanes = permitted_of zplanes,
       x_slice = xs,
       y_slice = ys \<rparr>"

subsection \<open>Filtering tile keys\<close>

text \<open>\<open>p is not None and v not in p\<close>, the test that skips a tile key.\<close>

fun excluded :: "int set option \<Rightarrow> int \<Rightarrow> bool" where
  "excluded None v = False"
| "excluded (Some s) v = (v \<notin> s)"

text \<open>
  The loop of \<open>filter_tilekeys\<close>: each of the three tests ends the iteration for
  that key (\<open>continue\<close>); a key that passes all of them is appended to the result.
\<close>

fun filter_tilekeys :: "CropParameters \<Rightarrow> TileKey list \<Rightarrow> TileKey list" where
  "filter_tilekeys p [] = []"
| "filter_tilekeys p (tilekey # tilekeys) =
     (if excluded (permitted_rounds p) (tk_round tilekey) then filter_tilekeys p tilekeys
      else if excluded (permitted_chs p) (tk_ch tilekey) then filter_tilekeys p tilekeys
      else if excluded (permitted_zplanes p) (tk_z tilekey) then filter_tilekeys p tilekeys
      else tilekey # filter_tilekeys p tilekeys)"

subsection \<open>Cropping one axis\<close>

text \<open>
  \<open>_crop_axis(size, crop)\<close>. An integer crop selects one index and raises
  \<open>IndexError\<close> outside \<open>0 \<le> crop < size\<close>. Otherwise start and stop are made
  absolute, each on its own: a missing bound is the end of the axis on its side, a
  negative bound counts from the far end and is raised to 0, any other bound is lowered
  to \<open>size\<close>.
\<close>

fun crop_axis :: "int \<Rightarrow> crop option \<Rightarrow> py_error + (int \<times> int)" where
  "crop_axis sz (Some (CropInt c)) =
     (if c < 0 \<or> c \<ge> sz then Inl IndexError else Inr (c, c + 1))"
| "crop_axis sz None = Inr (0, sz)"
| "crop_axis sz (Some (CropSlice start stop step)) =
     Inr ((case start of
             None \<Rightarrow> 0
           | Some s \<Rightarrow> if s < 0 then max 0 (sz + s) else min sz s),
          (case stop of
             None \<Rightarrow> sz
           | Some s \<Rightarrow> if s < 0 then max 0 (sz + s) else min sz s))"

subsection \<open>The shape of the cropped tile\<close>

text \<open>
  \<open>crop_shape(shape)\<close> with \<open>shape = (height, width)\<close>: the x crop is computed
  first, from \<open>shape[1]\<close>, then the y crop from \<open>shape[0]\<close>; the result is
  \<open>(stop - start)\<close> for y and for x, as Python integers.
\<close>

definition crop_shape :: "CropParameters \<Rightarrow> int \<times> int \<Rightarrow> py_error + (int \<times> int)" where
  "crop_shape p shape =
     (case crop_axis (snd shape) (x_slice p) of
        Inl e \<Rightarrow> Inl e
      | Inr output_x_shape \<Rightarrow>
          (case crop_axis (fst shape) (y_slice p) of
             Inl e \<Rightarrow> Inl e
           | Inr output_y_shape \<Rightarrow>
               Inr (snd output_y_shape - fst output_y_shape,
                    snd output_x_shape - fst output_x_shape)))"

subsection \<open>Two-dimensional arrays and basic slicing\<close>

text \<open>
  A 2-D array is its shape \<open>(rows, columns)\<close> and its rows. The shape is kept beside
  the rows because an array without rows still has a number of columns.
\<close>

record 'a ndarray =
  nd_shape :: "nat \<times> nat"
  nd_rows :: "'a list list"

definition nd_wf :: "'a ndarray \<Rightarrow> bool" where
  "nd_wf a = (length (nd_rows a) = fst (nd_shape a)
              \<and> list_all (\<lambda>r. length r = snd (nd_shape a)) (nd_rows a))"

text \<open>
  The bounds of \<open>start:stop\<close> on an axis of length \<open>n\<close>, as Python's
  \<open>slice.indices\<close> gives them for step 1: a negative bound counts from the end, and
  both are clipped to \<open>0..n\<close>. The slice selects \<open>max 0 (stop - start)\<close> positions.
\<close>

definition slice_index :: "nat \<Rightarrow> int \<Rightarrow> nat" where
  "slice_index n i = nat (min (int n) (max 0 (if i < 0 then i + int n else i)))"

definition slice_length :: "nat \<Rightarrow> int \<Rightarrow> int \<Rightarrow> nat" where
  "slice_length n start stop = slice_index n stop - slice_index n start"

definition slice_list :: "int \<Rightarrow> int \<Rightarrow> 'a list \<Rightarrow> 'a list" where
  "slice_list start stop xs =
     take (slice_length (length xs) start stop) (drop (slice_index (length xs) start) xs)"

text \<open>\<open>a[y0:y1, x0:x1]\<close>\<close>

definition nd_getitem :: "'a ndarray \<Rightarrow> int \<times> int \<Rightarrow> int \<times> int \<Rightarrow> 'a ndarray" where
  "nd_getitem a ys xs =
     \<lparr> nd_shape = (slice_length (fst (nd_shape a)) (fst ys) (snd ys),
                   slice_length (snd (nd_shape a)) (fst xs) (snd xs)),
       nd_rows = map (slice_list (fst xs) (snd xs)) (slice_list (fst ys) (snd ys) (nd_rows a)) \<rparr>"

definition np_zeros :: "nat \<Rightarrow> nat \<Rightarrow> int ndarray" where
  "np_zeros h w = \<lparr> nd_shape = (h, w), nd_rows = replicate h (replicate w 0) \<rparr>"

subsection \<open>Cropping the image\<close>

text \<open>
  \<open>crop_image(image)\<close>: the same two calls of \<open>_crop_axis\<close>, on
  \<open>image.shape[1]\<close> and \<open>image.shape[0]\<close>, then one basic slicing of the image.
\<close>

definition crop_image :: "CropParameters \<Rightarrow> 'a ndarray \<Rightarrow> py_error + 'a ndarray" where
  "crop_image p img =
     (case crop_axis (int (snd (nd_shape img))) (x_slice p) of
        Inl e \<Rightarrow> Inl e
      | Inr output_x_shape \<Rightarrow>
          (case crop_axis (int (fst (nd_shape img))) (y_slice p) of
             Inl e \<Rightarrow> Inl e
           | Inr output_y_shape \<Rightarrow> Inr (nd_getitem img output_y_shape output_x_shape)))"

section \<open>Candidate graph and connectivity repair of the graph-based decoder\<close>

text \<open>
  The notebook \<open>notebooks/py/graph_decoding.py\<close> imports the decoder
  (\<open>LocalGraphBlobDetector\<close>) from another module of the package; it calls the
  decoder and describes it. The definitions of this section are written from the
  specification (sections 3, 4.2 and 4.3), which the notebook's description agrees
  with: spots of different rounds closer than
  \<open>search_radius\<close> are connected, forming connected components; then, in each
  component, edges between not connected spots of consecutive rounds are forced if they
  are closer than \<open>search_radius_max\<close>.
\<close>

text \<open>
  Modelled from the spec: the Node of the data model (section 3), absent from the
  sources. One Node per consolidated Spot, carrying round index, position (2 or 3
  coordinates) and quality.
\<close>

record Node =
  node_round :: nat
  node_position :: "real list"
  node_quality :: real

text \<open>
  Modelled from the spec: the Edge and the graph (sections 3 and 9), absent from the
  sources. Nodes are held in an arena and referenced by integer index; an Edge is a
  pair of indices, without direction.
\<close>

type_synonym Edge = "nat \<times> nat"

record Graph =
  nodes :: "Node list"
  edges :: "Edge list"

text \<open>
  Modelled from the spec: the Euclidean distance between two positions and the test
  "distance \<open>\<le>\<close> radius" used by graph construction and repair (sections 4.2, 4.3).
\<close>

definition sq_distance :: "real list \<Rightarrow> real list \<Rightarrow> real" where
  "sq_distance p q = sum_list (map (\<lambda>(a, b). (a - b) * (a - b)) (zip p q))"

definition distance :: "real list \<Rightarrow> real list \<Rightarrow> real" where
  "distance p q = sqrt (sq_distance p q)"

definition within_radius :: "real \<Rightarrow> Node \<Rightarrow> Node \<Rightarrow> bool" where
  "within_radius r a b = (distance (node_position a) (node_position b) \<le> r)"

text \<open>
  Modelled from the spec: CandidateGraphBuilder (section 4.2), absent from the sources.
  For every unordered pair of Spots from different rounds whose Euclidean distance is
  at most \<open>search_radius\<close>, add an Edge; same-round spots are never linked.
\<close>

definition CandidateGraphBuilder :: "real \<Rightarrow> Node list \<Rightarrow> Graph" where
  "CandidateGraphBuilder search_radius spots =
     \<lparr> nodes = spots,
       edges = [(i, j). i \<leftarrow> [0..<length spots], j \<leftarrow> [Suc i..<length spots],
                 node_round (spots ! i) \<noteq> node_round (spots ! j),
                 within_radius search_radius (spots ! i) (spots ! j)] \<rparr>"

text \<open>
  Modelled from the spec: the ConnectedComponent of section 3, "maximal set of Nodes
  reachable via Edges", absent from the sources. Edges are symmetric: \<open>links\<close> lists
  each edge in both directions, two nodes are adjacent when an edge joins them, and a
  node reaches itself and every node at the end of a chain of links. The components of
  a graph are the distinct reachability classes of its nodes.
\<close>

definition links :: "Graph \<Rightarrow> Edge list" where
  "links g = edges g @ map prod.swap (edges g)"

definition adjacent :: "Graph \<Rightarrow> nat \<Rightarrow> nat \<Rightarrow> bool" where
  "adjacent g a b = ((a, b) \<in> set (links g))"

definition reachable :: "Graph \<Rightarrow> nat \<Rightarrow> nat \<Rightarrow> bool" where
  "reachable g a b = (a = b \<or> (a, b) \<in> (set (links g))\<^sup>+)"

definition component_of :: "Graph \<Rightarrow> nat \<Rightarrow> nat list" where
  "component_of g a = filter (reachable g a) [0..<length (nodes g)]"

definition connected_components :: "Graph \<Rightarrow> nat list list" where
  "connected_components g = remdups (map (component_of g) [0..<length (nodes g)])"

text \<open>
  Modelled from the spec: ConnectivityRepairer (section 4.3), absent from the sources.
  Input: the graph and its components. For each component, for every pair of Spots
  from consecutive rounds (round r and round r+1) not already connected (no edge joins
  them) but within \<open>search_radius_max\<close>, add an Edge. Pairs across components are
  not examined.
\<close>

definition repair_edges :: "real \<Rightarrow> Graph \<Rightarrow> nat list \<Rightarrow> Edge list" where
  "repair_edges search_radius_max g component =
     [(a, b). a \<leftarrow> component, b \<leftarrow> component,
        node_round (nodes g ! b) = Suc (node_round (nodes g ! a)),
        \<not> adjacent g a b,
        within_radius search_radius_max (nodes g ! a) (nodes g ! b)]"

definition ConnectivityRepairer :: "real \<Rightarrow> Graph \<Rightarrow> nat list list \<Rightarrow> Graph" where
  "ConnectivityRepairer search_radius_max g components =
     g\<lparr>edges := edges g @ concat (map (repair_edges search_radius_max g) components)\<rparr>"

text \<open>
  The three spots of the notebook's second example (lines 88 to 96): the round 1 spot
  at (35, 35), the round 2 spot at (29, 29) and the round 3 spot at (32, 32) between
  them, decoded there with \<open>search_radius = 5\<close> and \<open>search_radius_max = 10\<close>.
\<close>

definition example_2_spots :: "Node list" where
  "example_2_spots =
     [\<lparr>node_round = 0, node_position = [35, 35], node_quality = 1\<rparr>,
      \<lparr>node_round = 1, node_position = [29, 29], node_quality = 1\<rparr>,
      \<lparr>node_round = 2, node_position = [32, 32], node_quality = 1\<rparr>]"

section \<open>Properties of the cropping parameters\<close>

lemma filter_tilekeys_unset:
  "permitted_rounds p = None \<Longrightarrow> permitted_chs p = None \<Longrightarrow> permitted_zplanes p = None
     \<Longrightarrow> filter_tilekeys p tilekeys = tilekeys"
  by (induction tilekeys) simp_all

text \<open>
  C9. An empty collection given as \<open>permitted_rounds\<close>, \<open>permitted_chs\<close> or
  \<open>permitted_zplanes\<close> is stored as \<open>None\<close>, so it filters like an unset
  argument: replacing an empty collection by \<open>None\<close> (on any of the three axes,
  whatever the other arguments are) leaves the result of \<open>filter_tilekeys\<close>
  unchanged, and when every permitted collection is empty or unset every input tile key
  is returned, in the input order.
\<close>

theorem filter_tilekeys_empty_permitted:
  "filter_tilekeys (CropParameters_init (Some []) chs zplanes xs ys) tilekeys
     = filter_tilekeys (CropParameters_init None chs zplanes xs ys) tilekeys
   \<and> filter_tilekeys (CropParameters_init rounds (Some []) zplanes xs ys) tilekeys
     = filter_tilekeys (CropParameters_init rounds None zplanes xs ys) tilekeys
   \<and> filter_tilekeys (CropParameters_init rounds chs (Some []) xs ys) tilekeys
     = filter_tilekeys (CropParameters_init rounds chs None xs ys) tilekeys
   \<and> filter_tilekeys (CropParameters_init (Some []) (Some []) (Some []) xs ys) tilekeys
     = tilekeys
   \<and> filter_tilekeys (CropParameters_init (Some []) None None xs ys) tilekeys = tilekeys
   \<and> filter_tilekeys (CropParameters_init None (Some []) None xs ys) tilekeys = tilekeys
   \<and> filter_tilekeys (CropParameters_init None None (Some []) xs ys) tilekeys = tilekeys"
  by (simp add: CropParameters_init_def filter_tilekeys_unset)

theorem filter_tilekeys_empty_permitted_witness:
  "filter_tilekeys (CropParameters_init (Some []) (Some []) (Some []) None None)
     [\<lparr>tk_round = 0, tk_ch = 1, tk_z = 0\<rparr>, \<lparr>tk_round = 2, tk_ch = 0, tk_z = 3\<rparr>]
   = [\<lparr>tk_round = 0, tk_ch = 1, tk_z = 0\<rparr>, \<lparr>tk_round = 2, tk_ch = 0, tk_z = 3\<rparr>]
   \<and> filter_tilekeys (CropParameters_init (Some [2]) (Some []) None None None)
     [\<lparr>tk_round = 0, tk_ch = 1, tk_z = 0\<rparr>, \<lparr>tk_round = 2, tk_ch = 0, tk_z = 3\<rparr>]
   = filter_tilekeys (CropParameters_init (Some [2]) None None None None)
     [\<lparr>tk_round = 0, tk_ch = 1, tk_z = 0\<rparr>, \<lparr>tk_round = 2, tk_ch = 0, tk_z = 3\<rparr>]"
  using filter_tilekeys_empty_permitted
    [where rounds = "Some [2]" and chs = None and zplanes = None and xs = None and ys = None
       and tilekeys = "[\<lparr>tk_round = 0, tk_ch = 1, tk_z = 0\<rparr>,
                        \<lparr>tk_round = 2, tk_ch = 0, tk_z = 3\<rparr>]"]
  by blast

section \<open>Properties of the shape of a cropped tile\<close>

lemma slice_index_id: "0 \<le> i \<Longrightarrow> i \<le> int n \<Longrightarrow> slice_index n i = nat i"
  by (simp add: slice_index_def)

lemma crop_axis_bounds:
  "0 \<le> sz \<Longrightarrow> crop_axis sz c = Inr (a, b) \<Longrightarrow> 0 \<le> a \<and> a \<le> sz \<and> 0 \<le> b \<and> b \<le> sz"
  by (cases "(sz, c)" rule: crop_axis.cases) (auto split: if_splits option.splits)

lemma slice_length_crop_axis:
  "crop_axis (int n) c = Inr (a, b) \<Longrightarrow> slice_length n a b = nat (b - a)"
  using crop_axis_bounds [of "int n" c a b]
  by (auto simp: slice_length_def slice_index_id)

text \<open>
  Where \<open>crop_shape\<close> returns \<open>(h, w)\<close>, \<open>crop_image\<close> returns an array of
  shape \<open>(max 0 h, max 0 w)\<close>: the two agree exactly when neither difference
  \<open>stop - start\<close> is negative. Where \<open>crop_shape\<close> raises, so does
  \<open>crop_image\<close>.
\<close>

lemma crop_image_shape:
  assumes "crop_shape p (int (fst (nd_shape img)), int (snd (nd_shape img))) = Inr (h, w)"
  shows "\<exists>r. crop_image p img = Inr r \<and> nd_shape r = (nat h, nat w)"
  using assms
  by (auto simp: crop_shape_def crop_image_def nd_getitem_def slice_length_crop_axis
           split: sum.splits)

lemma crop_image_error:
  "crop_shape p (int (fst (nd_shape img)), int (snd (nd_shape img))) = Inl e
     \<Longrightarrow> crop_image p img = Inl e"
  by (auto simp: crop_shape_def crop_image_def split: sum.splits)

text \<open>Cropping a well-formed array gives a well-formed array.\<close>

lemma slice_index_le: "slice_index n i \<le> n"
  by (simp add: slice_index_def)

lemma length_slice_list: "length (slice_list a b xs) = slice_length (length xs) a b"
  using slice_index_le [of "length xs" b]
  by (simp add: slice_list_def slice_length_def)

lemma set_slice_list: "set (slice_list a b xs) \<subseteq> set xs"
  unfolding slice_list_def
  by (meson set_take_subset set_drop_subset subset_trans)

lemma nd_wf_zeros: "nd_wf (np_zeros h w)"
  by (simp add: nd_wf_def np_zeros_def list_all_iff)

lemma nd_wf_getitem:
  assumes "nd_wf a"
  shows "nd_wf (nd_getitem a ys xs)"
proof -
  have rows: "length (nd_rows a) = fst (nd_shape a)"
    and cols: "\<And>r. r \<in> set (nd_rows a) \<Longrightarrow> length r = snd (nd_shape a)"
    using assms by (simp_all add: nd_wf_def list_all_iff)
  have "length (slice_list (fst xs) (snd xs) r) = slice_length (snd (nd_shape a)) (fst xs) (snd xs)"
    if "r \<in> set (slice_list (fst ys) (snd ys) (nd_rows a))" for r
    using that set_slice_list [of "fst ys" "snd ys" "nd_rows a"] cols
    by (auto simp: length_slice_list)
  then show ?thesis
    by (simp add: nd_wf_def nd_getitem_def list_all_iff length_slice_list rows)
qed

lemma crop_image_wf: "nd_wf img \<Longrightarrow> crop_image p img = Inr r \<Longrightarrow> nd_wf r"
  by (auto simp: crop_image_def nd_wf_getitem split: sum.splits)

text \<open>
  C10. The claim is that \<open>crop_shape\<close> of an image's shape is the shape of
  \<open>crop_image\<close> of the image, for every crop. It fails for a slice whose absolute
  start lies after its absolute stop: with \<open>x_slice = slice(5, 2)\<close> and a 10 by 10
  image, \<open>crop_shape((10, 10))\<close> is \<open>(10, -3)\<close>, and \<open>crop_image\<close> returns an
  array of shape \<open>(10, 0)\<close>.
\<close>

theorem crop_shape_inverted_slice:
  "crop_shape (CropParameters_init None None None (Some (CropSlice (Some 5) (Some 2) None)) None)
     (10, 10) = Inr (10, - 3)
   \<and> map_sum id nd_shape
       (crop_image
          (CropParameters_init None None None (Some (CropSlice (Some 5) (Some 2) None)) None)
          (np_zeros 10 10)) = Inr (10, 0)"
  by (simp add: crop_shape_def crop_image_def CropParameters_init_def np_zeros_def
        nd_getitem_def slice_length_def slice_index_def)

section \<open>Properties of connectivity repair\<close>

lemma sq_distance_nonneg: "0 \<le> sq_distance p q"
  unfolding sq_distance_def by (rule sum_list_nonneg) auto

text \<open>The distance test without the square root, for evaluation.\<close>

lemma within_radius_code [code]:
  "within_radius r a b = (0 \<le> r \<and> sq_distance (node_position a) (node_position b) \<le> r * r)"
proof -
  have "sqrt x \<le> r \<longleftrightarrow> 0 \<le> r \<and> x \<le> r * r" if "0 \<le> x" for x
  proof
    assume h: "sqrt x \<le> r"
    have "0 \<le> sqrt x" using that by simp
    then have r: "0 \<le> r" using h by linarith
    have "x = sqrt x * sqrt x" using that by simp
    also have "\<dots> \<le> r * r" using h \<open>0 \<le> sqrt x\<close> r by (intro mult_mono) auto
    finally show "0 \<le> r \<and> x \<le> r * r" using r by simp
  next
    assume "0 \<le> r \<and> x \<le> r * r"
    then show "sqrt x \<le> r"
      by (intro real_le_lsqrt) (simp_all add: power2_eq_square)
  qed
  then show ?thesis
    by (simp add: within_radius_def distance_def sq_distance_nonneg)
qed

text \<open>Reachability is the reflexive transitive closure of the links, and symmetric.\<close>

lemma reachable_rtrancl: "reachable g a b \<longleftrightarrow> (a, b) \<in> (set (links g))\<^sup>*"
  by (auto simp: reachable_def rtrancl_eq_or_trancl)

lemma sym_links: "sym (set (links g))"
  by (auto simp: links_def sym_def)

lemma reachable_sym: "reachable g a b \<Longrightarrow> reachable g b a"
  using sym_rtrancl [OF sym_links, of g] by (auto simp: reachable_rtrancl sym_def)

lemma reachable_trans: "reachable g a b \<Longrightarrow> reachable g b c \<Longrightarrow> reachable g a c"
  by (auto simp: reachable_rtrancl)

lemma in_componentD:
  assumes "c \<in> set (connected_components g)" and "a \<in> set c" and "b \<in> set c"
  shows "reachable g a b"
proof -
  from assms(1) obtain x where c: "c = component_of g x"
    by (auto simp: connected_components_def)
  from assms(2,3) have "reachable g x a" and "reachable g x b"
    by (simp_all add: c component_of_def)
  then show ?thesis
    by (blast intro: reachable_sym reachable_trans)
qed

lemma repair_edges_subset:
  "(a, b) \<in> set (repair_edges r g c) \<Longrightarrow> a \<in> set c \<and> b \<in> set c"
  by (auto simp: repair_edges_def)

lemma added_edge_reachable:
  assumes "(a, b) \<in> set (concat (map (repair_edges r g) (connected_components g)))"
  shows "reachable g a b"
proof -
  from assms obtain c
    where "c \<in> set (connected_components g)" "(a, b) \<in> set (repair_edges r g c)"
    by auto
  then show ?thesis
    using in_componentD repair_edges_subset by blast
qed

lemma links_repair:
  "set (links (ConnectivityRepairer r g cs)) =
     set (links g) \<union> set (concat (map (repair_edges r g) cs))
       \<union> prod.swap ` set (concat (map (repair_edges r g) cs))"
  by (auto simp: links_def ConnectivityRepairer_def)

lemma rtrancl_links_repair:
  "(set (links (ConnectivityRepairer r g (connected_components g))))\<^sup>* = (set (links g))\<^sup>*"
proof (rule rtrancl_subset)
  show "set (links g) \<subseteq> set (links (ConnectivityRepairer r g (connected_components g)))"
    by (auto simp: links_repair)
  show "set (links (ConnectivityRepairer r g (connected_components g))) \<subseteq> (set (links g))\<^sup>*"
  proof
    fix e assume e: "e \<in> set (links (ConnectivityRepairer r g (connected_components g)))"
    obtain a b where ab: "e = (a, b)" by (cases e)
    from e consider "(a, b) \<in> set (links g)"
      | "(a, b) \<in> set (concat (map (repair_edges r g) (connected_components g)))"
      | "(b, a) \<in> set (concat (map (repair_edges r g) (connected_components g)))"
      unfolding links_repair ab by auto
    then show "e \<in> (set (links g))\<^sup>*"
    proof cases
      case 1
      then show ?thesis by (auto simp: ab)
    next
      case 2
      then show ?thesis
        using added_edge_reachable [of a b r g] by (simp add: ab reachable_rtrancl)
    next
      case 3
      then show ?thesis
        using reachable_sym [OF added_edge_reachable [of b a r g]]
        by (simp add: ab reachable_rtrancl)
    qed
  qed
qed

lemma reachable_repair:
  "reachable (ConnectivityRepairer r g (connected_components g)) = reachable g"
  by (intro ext) (simp add: reachable_rtrancl rtrancl_links_repair)

lemma nodes_repair: "nodes (ConnectivityRepairer r g cs) = nodes g"
  by (simp add: ConnectivityRepairer_def)

lemma component_of_repair:
  "component_of (ConnectivityRepairer r g (connected_components g)) = component_of g"
  by (intro ext) (simp add: component_of_def reachable_repair nodes_repair)

text \<open>
  C1. Connectivity repair never changes component membership. For every graph \<open>g\<close>
  and every \<open>search_radius_max\<close>, the graph that ConnectivityRepairer returns for
  \<open>g\<close> and the components of \<open>g\<close> has the same list of connected components as
  \<open>g\<close> and the same reachability between any two nodes, and every edge it adds
  joins two nodes of one component of \<open>g\<close>.
\<close>

theorem repair_preserves_components:
  "connected_components (ConnectivityRepairer search_radius_max g (connected_components g))
     = connected_components g
   \<and> (\<forall>a b. reachable (ConnectivityRepairer search_radius_max g (connected_components g)) a b
              = reachable g a b)
   \<and> (\<forall>e \<in> set (edges (ConnectivityRepairer search_radius_max g (connected_components g)))
              - set (edges g).
         \<exists>c \<in> set (connected_components g). fst e \<in> set c \<and> snd e \<in> set c)"
proof (intro conjI allI ballI)
  let ?g' = "ConnectivityRepairer search_radius_max g (connected_components g)"
  have "connected_components ?g' = remdups (map (component_of ?g') [0..<length (nodes ?g')])"
    by (rule connected_components_def)
  also have "\<dots> = remdups (map (component_of g) [0..<length (nodes g)])"
    by (simp only: component_of_repair nodes_repair)
  also have "\<dots> = connected_components g"
    by (simp only: connected_components_def)
  finally show "connected_components ?g' = connected_components g" .
  show "reachable ?g' a b = reachable g a b" for a b
    by (simp add: reachable_repair)
  show "\<exists>c \<in> set (connected_components g). fst e \<in> set c \<and> snd e \<in> set c"
    if "e \<in> set (edges ?g') - set (edges g)" for e
  proof -
    from that obtain c where "c \<in> set (connected_components g)"
      and "e \<in> set (repair_edges search_radius_max g c)"
      by (auto simp: ConnectivityRepairer_def)
    then show ?thesis
      using repair_edges_subset [of "fst e" "snd e" search_radius_max g c] by auto
  qed
qed

text \<open>
  On the notebook's second example, with \<open>search_radius = 5\<close> the builder links the
  round 3 spot to the other two (distance \<open>sqrt 18\<close>) and not the round 1 spot to the
  round 2 spot (distance \<open>sqrt 72\<close>); repair with \<open>search_radius_max = 10\<close> adds that
  edge, and the single component stays as it is.
\<close>

theorem repair_preserves_components_witness:
  "edges (CandidateGraphBuilder 5 example_2_spots) = [(0, 2), (1, 2)]
   \<and> connected_components (CandidateGraphBuilder 5 example_2_spots) = [[0, 1, 2]]
   \<and> edges (ConnectivityRepairer 10 (CandidateGraphBuilder 5 example_2_spots)
              (connected_components (CandidateGraphBuilder 5 example_2_spots)))
       = [(0, 2), (1, 2), (0, 1)]
   \<and> connected_components (ConnectivityRepairer 10 (CandidateGraphBuilder 5 example_2_spots)
              (connected_components (CandidateGraphBuilder 5 example_2_spots))) = [[0, 1, 2]]"
proof -
  have c: "connected_components (CandidateGraphBuilder 5 example_2_spots) = [[0, 1, 2]]"
    by code_simp
  have e: "edges (CandidateGraphBuilder 5 example_2_spots) = [(0, 2), (1, 2)]"
    by code_simp
  have r: "edges (ConnectivityRepairer 10 (CandidateGraphBuilder 5 example_2_spots)
              (connected_components (CandidateGraphBuilder 5 example_2_spots)))
            = [(0, 2), (1, 2), (0, 1)]"
    by code_simp
  show ?thesis
    using repair_preserves_components [of 10 "CandidateGraphBuilder 5 example_2_spots"] c e r
    by simp
qed

end
